theory Spec2Isabelle
  imports Main "HOL-Library.Word"
begin

unbundle bit_operations_syntax

section \<open>Data model of \<open>PYLibPinyin.cc\<close>\<close>

text \<open>
  The backend is glue around three collaborators that are not part of the repository:
  the libpinyin engine, GLib (timer, main loop, file utilities) and the configuration
  objects. Their answers are inputs of the model; every call the backend makes to them
  is recorded, in program order, in a list of \<open>call\<close> values, so that statements about
  which engine call happens, with which arguments and in which order, are statements
  about that list.
\<close>

type_synonym guint = "32 word"
type_synonym gint = "32 word"
type_synonym pinyin_option_t = "32 word"

text \<open>
  A \<open>gint\<close> is kept as its 32-bit two's complement pattern (\<open>sint\<close> reads it); the
  source only compares such values for equality.
\<close>

text \<open>
  A \<open>pinyin_context_t *\<close> is \<open>None\<close> for \<open>NULL\<close> and \<open>Some c\<close> for a pointer to the
  engine context \<open>c\<close>. A file name is kept as the list of elements handed to
  \<open>g_build_filename\<close>. Clock readings are microseconds of GLib's monotonic clock.
\<close>

type_synonym pinyin_context_t = nat
type_synonym filename = "string list"
type_synonym usec = nat

datatype DoublePinyinScheme =
    DOUBLE_PINYIN_MS | DOUBLE_PINYIN_ZRM | DOUBLE_PINYIN_ABC
  | DOUBLE_PINYIN_ZIGUANG | DOUBLE_PINYIN_PYJJ | DOUBLE_PINYIN_XHE

datatype ChewingScheme =
    CHEWING_STANDARD | CHEWING_GINYIEH | CHEWING_ETEN | CHEWING_IBM

text \<open>The three getters of \<open>Config\<close> that the backend reads.\<close>

record Config =
  doublePinyinSchema :: gint
  bopomofoKeyboardMapping :: gint
  option :: pinyin_option_t

text \<open>
  Calls to the collaborators. \<open>G_timeout_add_seconds\<close> carries the interval and the
  source id that GLib returned; callback and data pointer are always
  \<open>timeoutCallback\<close> and \<open>this\<close>. \<open>SaveUserDB\<close> marks the entry of the method
  \<open>saveUserDB\<close>, which makes no collaborator call of its own when no context exists.
\<close>

datatype call =
    G_timer_new
  | G_timer_destroy
  | G_timer_start
  | G_timer_elapsed
  | G_timeout_add_seconds guint guint
  | G_source_remove guint
  | G_mkdir_with_parents filename nat
  | Pinyin_init string "filename option"
  | Pinyin_fini pinyin_context_t
  | Pinyin_alloc_instance "pinyin_context_t option"
  | Pinyin_free_instance nat
  | Pinyin_set_double_pinyin_scheme pinyin_context_t DoublePinyinScheme
  | Pinyin_set_chewing_scheme pinyin_context_t ChewingScheme
  | Pinyin_set_options pinyin_context_t pinyin_option_t
  | Pinyin_save pinyin_context_t
  | SaveUserDB

text \<open>
  What the collaborators answer during one allocation: the home directory, the return
  value of \<open>g_mkdir_with_parents\<close> (0 on success) and the pointer returned by
  \<open>pinyin_init\<close>.
\<close>

record environment =
  g_get_home_dir :: string
  g_mkdir_with_parents :: "filename \<Rightarrow> nat \<Rightarrow> int"
  pinyin_init :: "string \<Rightarrow> filename option \<Rightarrow> pinyin_context_t option"

text \<open>The fields of the class. \<open>m_timer\<close> holds the start time of the \<open>GTimer\<close>.\<close>

record LibPinyinBackEnd =
  m_timeout_id :: guint
  m_timer :: usec
  m_pinyin_context :: "pinyin_context_t option"
  m_chewing_context :: "pinyin_context_t option"

definition LIBPINYIN_SAVE_TIMEOUT :: nat where
  "LIBPINYIN_SAVE_TIMEOUT = 5 * 60"

section \<open>Construction, destruction, saving\<close>

text \<open>\<open>g_timer_new\<close> starts the timer it creates, at the time of the call.\<close>

definition LibPinyinBackEnd_ctor :: "usec \<Rightarrow> LibPinyinBackEnd \<times> call list" where
  "LibPinyinBackEnd_ctor now =
     (\<lparr>m_timeout_id = 0, m_timer = now,
       m_pinyin_context = None, m_chewing_context = None\<rparr>,
      [G_timer_new])"

text \<open>
  \<open>saveUserDB\<close>: the value of \<open>pinyin_save\<close> is discarded, so the engine's answer
  \<open>save_result\<close> never reaches the result.
\<close>

definition saveUserDB :: "(pinyin_context_t \<Rightarrow> bool) \<Rightarrow> LibPinyinBackEnd \<Rightarrow> bool \<times> call list" where
  "saveUserDB save_result b =
     (True,
      SaveUserDB #
      (case m_pinyin_context b of None \<Rightarrow> [] | Some c \<Rightarrow> [Pinyin_save c]) @
      (case m_chewing_context b of None \<Rightarrow> [] | Some c \<Rightarrow> [Pinyin_save c]))"

definition LibPinyinBackEnd_dtor ::
  "(pinyin_context_t \<Rightarrow> bool) \<Rightarrow> LibPinyinBackEnd \<Rightarrow> LibPinyinBackEnd \<times> call list" where
  "LibPinyinBackEnd_dtor save_result b =
     (let cs1 = [G_timer_destroy];
          cs2 = (if m_timeout_id b \<noteq> 0
                 then snd (saveUserDB save_result b) @ [G_source_remove (m_timeout_id b)]
                 else []);
          cs3 = (case m_pinyin_context b of None \<Rightarrow> [] | Some c \<Rightarrow> [Pinyin_fini c]);
          b1 = b\<lparr>m_pinyin_context := None\<rparr>;
          cs4 = (case m_chewing_context b1 of None \<Rightarrow> [] | Some c \<Rightarrow> [Pinyin_fini c]);
          b2 = b1\<lparr>m_chewing_context := None\<rparr>
      in (b2, cs1 @ cs2 @ cs3 @ cs4))"

section \<open>Options\<close>

definition double_pinyin_options :: "(gint \<times> DoublePinyinScheme) list" where
  "double_pinyin_options =
     [(0, DOUBLE_PINYIN_MS), (1, DOUBLE_PINYIN_ZRM), (2, DOUBLE_PINYIN_ABC),
      (3, DOUBLE_PINYIN_ZIGUANG), (4, DOUBLE_PINYIN_PYJJ), (5, DOUBLE_PINYIN_XHE)]"

definition chewing_options :: "(gint \<times> ChewingScheme) list" where
  "chewing_options =
     [(0, CHEWING_STANDARD), (1, CHEWING_GINYIEH), (2, CHEWING_ETEN), (3, CHEWING_IBM)]"

text \<open>
  The \<open>for\<close> loop over a table: every entry is visited, in order, and each entry whose
  key equals the selector \<open>map_v\<close> (the source's \<open>map\<close>) issues one setter call.
\<close>

primrec scheme_loop :: "('s \<Rightarrow> call) \<Rightarrow> (gint \<times> 's) list \<Rightarrow> gint \<Rightarrow> call list" where
  "scheme_loop setter [] map_v = []"
| "scheme_loop setter (e # es) map_v =
     (if map_v = fst e then [setter (snd e)] else []) @ scheme_loop setter es map_v"

text \<open>
  \<open>USE_RESPLIT_TABLE\<close> is a constant of libpinyin's headers; it is the parameter
  \<open>use_resplit_table\<close>.
\<close>

definition setPinyinOptions ::
  "pinyin_option_t \<Rightarrow> Config \<Rightarrow> LibPinyinBackEnd \<Rightarrow> bool \<times> call list" where
  "setPinyinOptions use_resplit_table config b =
     (case m_pinyin_context b of
        None \<Rightarrow> (False, [])
      | Some c \<Rightarrow>
          (True,
           scheme_loop (Pinyin_set_double_pinyin_scheme c) double_pinyin_options
             (doublePinyinSchema config) @
           [Pinyin_set_options c (option config OR use_resplit_table)]))"

definition setChewingOptions :: "Config \<Rightarrow> LibPinyinBackEnd \<Rightarrow> bool \<times> call list" where
  "setChewingOptions config b =
     (case m_chewing_context b of
        None \<Rightarrow> (False, [])
      | Some c \<Rightarrow>
          (True,
           scheme_loop (Pinyin_set_chewing_scheme c) chewing_options
             (bopomofoKeyboardMapping config) @
           [Pinyin_set_options c (option config)]))"

section \<open>Allocation\<close>

definition system_data_dir :: string where
  "system_data_dir = ''/usr/share/libpinyin/data''"

text \<open>The mode \<open>0700\<close> of the source is octal.\<close>

definition mode_0700 :: nat where
  "mode_0700 = 7 * 8 * 8"

definition allocPinyinInstance ::
  "pinyin_option_t \<Rightarrow> environment \<Rightarrow> Config \<Rightarrow> LibPinyinBackEnd \<Rightarrow> LibPinyinBackEnd \<times> call list" where
  "allocPinyinInstance use_resplit_table env config b =
     (let (b1, cs1) =
            (if m_pinyin_context b = None then
               (let userdir0 = [g_get_home_dir env, ''.cache'', ''ibus'', ''libpinyin''];
                    retval = g_mkdir_with_parents env userdir0 mode_0700;
                    userdir = (if retval \<noteq> 0 then None else Some userdir0)
                in (b\<lparr>m_pinyin_context := pinyin_init env system_data_dir userdir\<rparr>,
                    [G_mkdir_with_parents userdir0 mode_0700,
                     Pinyin_init system_data_dir userdir]))
             else (b, []));
          cs2 = snd (setPinyinOptions use_resplit_table config b1)
      in (b1, cs1 @ cs2 @ [Pinyin_alloc_instance (m_pinyin_context b1)]))"

definition allocChewingInstance ::
  "environment \<Rightarrow> Config \<Rightarrow> LibPinyinBackEnd \<Rightarrow> LibPinyinBackEnd \<times> call list" where
  "allocChewingInstance env config b =
     (let (b1, cs1) =
            (if m_chewing_context b = None then
               (let userdir0 = [g_get_home_dir env, ''.cache'', ''ibus'', ''libbopomofo''];
                    retval = g_mkdir_with_parents env userdir0 mode_0700;
                    userdir = (if retval \<noteq> 0 then None else Some userdir0)
                in (b\<lparr>m_chewing_context := pinyin_init env system_data_dir None\<rparr>,
                    [G_mkdir_with_parents userdir0 mode_0700,
                     Pinyin_init system_data_dir None]))
             else (b, []));
          cs2 = snd (setChewingOptions config b1)
      in (b1, cs1 @ cs2 @ [Pinyin_alloc_instance (m_chewing_context b1)]))"

definition freePinyinInstance :: "nat \<Rightarrow> LibPinyinBackEnd \<Rightarrow> LibPinyinBackEnd \<times> call list" where
  "freePinyinInstance instance b = (b, [Pinyin_free_instance instance])"

definition freeChewingInstance :: "nat \<Rightarrow> LibPinyinBackEnd \<Rightarrow> LibPinyinBackEnd \<times> call list" where
  "freeChewingInstance instance b = (b, [Pinyin_free_instance instance])"

section \<open>The save timer\<close>

text \<open>
  \<open>(guint) g_timer_elapsed (m_timer, NULL)\<close>: the seconds since the timer was last
  started, as a \<open>double\<close>, converted to a 32-bit \<open>guint\<close>. The clock is monotonic and
  its readings are whole microseconds, so the cast truncates to the integer quotient
  as long as that fits 32 bits (some 136 years). Beyond that the conversion is undefined
  in C; the model keeps the low 32 bits of the quotient, which is what the conversion
  compiles to on x86-64, so that the value is 0 again after \<open>2 ^ 32\<close> seconds.
\<close>

definition g_timer_elapsed :: "usec \<Rightarrow> LibPinyinBackEnd \<Rightarrow> guint" where
  "g_timer_elapsed now b = of_nat ((now - m_timer b) div 1000000)"

text \<open>\<open>new_id\<close> is what \<open>g_timeout_add_seconds\<close> returns if it is called.\<close>

definition modified :: "usec \<Rightarrow> guint \<Rightarrow> LibPinyinBackEnd \<Rightarrow> LibPinyinBackEnd \<times> call list" where
  "modified now new_id b =
     (let b1 = b\<lparr>m_timer := now\<rparr>
      in if m_timeout_id b1 \<noteq> 0 then (b1, [G_timer_start])
         else (b1\<lparr>m_timeout_id := new_id\<rparr>,
               [G_timer_start,
                G_timeout_add_seconds (of_nat LIBPINYIN_SAVE_TIMEOUT) new_id]))"

text \<open>
  The result is the \<open>gboolean\<close> handed back to the main loop: \<open>True\<close> keeps the source,
  \<open>False\<close> removes it. \<open>&&\<close> evaluates \<open>saveUserDB\<close> only when the first operand holds.
  The comparison is unsigned: the \<open>int\<close> constant is converted to the type of \<open>elapsed\<close>.
\<close>

definition timeoutCallback ::
  "(pinyin_context_t \<Rightarrow> bool) \<Rightarrow> usec \<Rightarrow> LibPinyinBackEnd \<Rightarrow> bool \<times> LibPinyinBackEnd \<times> call list" where
  "timeoutCallback save_result now self =
     (let elapsed = g_timer_elapsed now self
      in if elapsed \<ge> of_nat LIBPINYIN_SAVE_TIMEOUT then
           (let (ok, cs) = saveUserDB save_result self
            in if ok then (False, self\<lparr>m_timeout_id := 0\<rparr>, G_timer_elapsed # cs)
               else (True, self, G_timer_elapsed # cs))
         else (True, self, [G_timer_elapsed]))"

section \<open>One backend object driven by its callers and by the main loop\<close>

text \<open>
  \<open>sources\<close> is the list of timeout sources attached to the GLib main context on behalf
  of the object: \<open>g_timeout_add_seconds\<close> attaches the source whose id it returns,
  \<open>g_source_remove\<close> detaches, and the main loop detaches a source whose callback
  returned \<open>FALSE\<close>. A save is scheduled and not yet completed exactly while a source is
  attached. \<open>trace\<close> is the history of collaborator calls, each with the time of the
  method call that made it.
\<close>

record session =
  self :: LibPinyinBackEnd
  sources :: "guint list"
  trace :: "(usec \<times> call) list"

primrec loop_effect :: "call \<Rightarrow> guint list \<Rightarrow> guint list" where
  "loop_effect G_timer_new srcs = srcs"
| "loop_effect G_timer_destroy srcs = srcs"
| "loop_effect G_timer_start srcs = srcs"
| "loop_effect G_timer_elapsed srcs = srcs"
| "loop_effect (G_timeout_add_seconds interval sid) srcs = srcs @ [sid]"
| "loop_effect (G_source_remove sid) srcs = removeAll sid srcs"
| "loop_effect (G_mkdir_with_parents f m) srcs = srcs"
| "loop_effect (Pinyin_init d u) srcs = srcs"
| "loop_effect (Pinyin_fini c) srcs = srcs"
| "loop_effect (Pinyin_alloc_instance c) srcs = srcs"
| "loop_effect (Pinyin_free_instance i) srcs = srcs"
| "loop_effect (Pinyin_set_double_pinyin_scheme c s) srcs = srcs"
| "loop_effect (Pinyin_set_chewing_scheme c s) srcs = srcs"
| "loop_effect (Pinyin_set_options c opts) srcs = srcs"
| "loop_effect (Pinyin_save c) srcs = srcs"
| "loop_effect SaveUserDB srcs = srcs"

definition after_calls :: "usec \<Rightarrow> LibPinyinBackEnd \<Rightarrow> call list \<Rightarrow> session \<Rightarrow> session" where
  "after_calls now b cs s =
     \<lparr>self = b, sources = fold loop_effect cs (sources s),
      trace = trace s @ map (Pair now) cs\<rparr>"

text \<open>
  The method calls a caller can make, and \<open>Dispatch sid\<close>: the main loop runs the
  callback of the attached source \<open>sid\<close> (nothing happens for a source that is not
  attached).
\<close>

datatype event =
    AllocPinyin environment Config
  | AllocChewing environment Config
  | FreePinyin nat
  | FreeChewing nat
  | SetPinyinOptions Config
  | SetChewingOptions Config
  | Modified guint
  | Dispatch guint

fun step ::
  "(pinyin_context_t \<Rightarrow> bool) \<Rightarrow> pinyin_option_t \<Rightarrow> session \<Rightarrow> usec \<times> event \<Rightarrow> session" where
  "step sr rs s (now, AllocPinyin env config) =
     (let (b, cs) = allocPinyinInstance rs env config (self s) in after_calls now b cs s)"
| "step sr rs s (now, AllocChewing env config) =
     (let (b, cs) = allocChewingInstance env config (self s) in after_calls now b cs s)"
| "step sr rs s (now, FreePinyin i) =
     (let (b, cs) = freePinyinInstance i (self s) in after_calls now b cs s)"
| "step sr rs s (now, FreeChewing i) =
     (let (b, cs) = freeChewingInstance i (self s) in after_calls now b cs s)"
| "step sr rs s (now, SetPinyinOptions config) =
     after_calls now (self s) (snd (setPinyinOptions rs config (self s))) s"
| "step sr rs s (now, SetChewingOptions config) =
     after_calls now (self s) (snd (setChewingOptions config (self s))) s"
| "step sr rs s (now, Modified new_id) =
     (let (b, cs) = modified now new_id (self s) in after_calls now b cs s)"
| "step sr rs s (now, Dispatch sid) =
     (if sid \<in> set (sources s) then
        (let (continue, b, cs) = timeoutCallback sr now (self s);
             s1 = after_calls now b cs s
         in if continue then s1 else s1\<lparr>sources := removeAll sid (sources s1)\<rparr>)
      else s)"

definition start :: "usec \<Rightarrow> session" where
  "start now =
     (let (b, cs) = LibPinyinBackEnd_ctor now
      in \<lparr>self = b, sources = [], trace = map (Pair now) cs\<rparr>)"

definition run ::
  "(pinyin_context_t \<Rightarrow> bool) \<Rightarrow> pinyin_option_t \<Rightarrow> session \<Rightarrow> (usec \<times> event) list \<Rightarrow> session" where
  "run sr rs s evs = foldl (step sr rs) s evs"

definition destroy :: "(pinyin_context_t \<Rightarrow> bool) \<Rightarrow> usec \<Rightarrow> session \<Rightarrow> session" where
  "destroy sr now s =
     (let (b, cs) = LibPinyinBackEnd_dtor sr (self s) in after_calls now b cs s)"

section \<open>The process: the static object and the registered instance\<close>

text \<open>
  \<open>libpinyin_backend\<close> is the file-scope object of line 32, constructed during static
  initialisation and alive until the process exits. \<open>m_instance\<close> is the
  \<open>unique_ptr\<close>: \<open>None\<close> when it is empty, \<open>Some b\<close> when it owns the object \<open>b\<close>.
  \<open>g_assert\<close> aborts the process (GLib's assertions are compiled in unless
  \<open>G_DISABLE_ASSERT\<close> is defined), which is the error \<open>AssertionFailed\<close>.
\<close>

datatype error = AssertionFailed

record process =
  libpinyin_backend :: LibPinyinBackEnd
  m_instance :: "LibPinyinBackEnd option"

definition static_init :: "usec \<Rightarrow> process" where
  "static_init now =
     \<lparr>libpinyin_backend = fst (LibPinyinBackEnd_ctor now), m_instance = None\<rparr>"

definition init :: "usec \<Rightarrow> process \<Rightarrow> error + process \<times> call list" where
  "init now p =
     (if m_instance p \<noteq> None then Inl AssertionFailed
      else (let (backend, cs) = LibPinyinBackEnd_ctor now
            in Inr (p\<lparr>m_instance := Some backend\<rparr>, cs)))"

text \<open>\<open>m_instance.reset ()\<close> deletes the owned object, if there is one.\<close>

definition finalize :: "(pinyin_context_t \<Rightarrow> bool) \<Rightarrow> process \<Rightarrow> process \<times> call list" where
  "finalize sr p =
     (case m_instance p of
        None \<Rightarrow> (p, [])
      | Some b \<Rightarrow> (p\<lparr>m_instance := None\<rparr>, snd (LibPinyinBackEnd_dtor sr b)))"

text \<open>The \<open>LibPinyinBackEnd\<close> objects that are alive in a process state.\<close>

definition instances :: "process \<Rightarrow> LibPinyinBackEnd list" where
  "instances p =
     libpinyin_backend p # (case m_instance p of None \<Rightarrow> [] | Some b \<Rightarrow> [b])"

text \<open>The contexts an object holds, Pinyin first: the order every method visits them in.\<close>

definition existing_contexts :: "LibPinyinBackEnd \<Rightarrow> pinyin_context_t list" where
  "existing_contexts b =
     (case m_pinyin_context b of None \<Rightarrow> [] | Some c \<Rightarrow> [c]) @
     (case m_chewing_context b of None \<Rightarrow> [] | Some c \<Rightarrow> [c])"

text \<open>
  A sequence of the two static lifecycle calls, stopping at the first failed
  assertion.
\<close>

datatype lifecycle_op = Init usec | Finalize

fun lifecycle ::
  "(pinyin_context_t \<Rightarrow> bool) \<Rightarrow> process \<Rightarrow> lifecycle_op list \<Rightarrow> error + process" where
  "lifecycle sr p [] = Inr p"
| "lifecycle sr p (Init now # ops) =
     (case init now p of Inl e \<Rightarrow> Inl e | Inr (p', cs) \<Rightarrow> lifecycle sr p' ops)"
| "lifecycle sr p (Finalize # ops) = lifecycle sr (fst (finalize sr p)) ops"

text \<open>
  An environment in which the directory can be created and the engine hands out
  context 7.
\<close>

definition home_env :: environment where
  "home_env =
     \<lparr>g_get_home_dir = ''/home/u'', g_mkdir_with_parents = (\<lambda>f m. 0),
      pinyin_init = (\<lambda>d u. Some 7)\<rparr>"

text \<open>An environment in which the engine cannot load its data: \<open>pinyin_init\<close> returns \<open>NULL\<close>.\<close>

definition failing_env :: environment where
  "failing_env =
     \<lparr>g_get_home_dir = ''/home/u'', g_mkdir_with_parents = (\<lambda>f m. 0),
      pinyin_init = (\<lambda>d u. None)\<rparr>"

definition config_abc :: Config where
  "config_abc = \<lparr>doublePinyinSchema = 2, bopomofoKeyboardMapping = 1, option = 3\<rparr>"

subsection \<open>Observations on events and call histories\<close>

fun is_AllocPinyin :: "event \<Rightarrow> bool" where
  "is_AllocPinyin (AllocPinyin env config) = True"
| "is_AllocPinyin other = False"

fun is_AllocChewing :: "event \<Rightarrow> bool" where
  "is_AllocChewing (AllocChewing env config) = True"
| "is_AllocChewing other = False"

text \<open>
  \<open>init_succeeds e\<close>: if \<open>e\<close> is an allocation, the \<open>pinyin_init\<close> call that the
  allocation makes when it has to create the context (with the arguments the code
  computes) returns a non-null pointer.
\<close>

fun init_succeeds :: "event \<Rightarrow> bool" where
  "init_succeeds (AllocPinyin env config) =
     (pinyin_init env system_data_dir
        (if g_mkdir_with_parents env [g_get_home_dir env, ''.cache'', ''ibus'', ''libpinyin'']
              mode_0700 \<noteq> 0
         then None
         else Some [g_get_home_dir env, ''.cache'', ''ibus'', ''libpinyin'']) \<noteq> None)"
| "init_succeeds (AllocChewing env config) = (pinyin_init env system_data_dir None \<noteq> None)"
| "init_succeeds other = True"

fun is_Pinyin_init :: "call \<Rightarrow> bool" where
  "is_Pinyin_init (Pinyin_init d u) = True"
| "is_Pinyin_init other = False"

text \<open>The number of contexts the engine was asked to create so far.\<close>

definition init_calls :: "session \<Rightarrow> nat" where
  "init_calls s = length (filter is_Pinyin_init (map snd (trace s)))"

text \<open>
  The number of contexts a run of \<open>evs\<close> from \<open>s\<close> has to create when every
  \<open>pinyin_init\<close> succeeds.
\<close>

definition creations :: "session \<Rightarrow> (usec \<times> event) list \<Rightarrow> nat" where
  "creations s evs =
     (if m_pinyin_context (self s) = None \<and> list_ex (\<lambda>ev. is_AllocPinyin (snd ev)) evs then 1 else 0) +
     (if m_chewing_context (self s) = None \<and> list_ex (\<lambda>ev. is_AllocChewing (snd ev)) evs then 1 else 0)"

fun is_option_call :: "call \<Rightarrow> bool" where
  "is_option_call (Pinyin_set_double_pinyin_scheme c s) = True"
| "is_option_call (Pinyin_set_chewing_scheme c s) = True"
| "is_option_call (Pinyin_set_options c opts) = True"
| "is_option_call other = False"

text \<open>
  The selector table in the specification's words: 0 to 5 select MS, ZRM, ABC,
  ZIGUANG, PYJJ and XHE, any other value selects nothing. It is compared with the loop
  of the source below.
\<close>

definition selected_double_pinyin_scheme :: "gint \<Rightarrow> DoublePinyinScheme option" where
  "selected_double_pinyin_scheme selector =
     (if selector = 0 then Some DOUBLE_PINYIN_MS
      else if selector = 1 then Some DOUBLE_PINYIN_ZRM
      else if selector = 2 then Some DOUBLE_PINYIN_ABC
      else if selector = 3 then Some DOUBLE_PINYIN_ZIGUANG
      else if selector = 4 then Some DOUBLE_PINYIN_PYJJ
      else if selector = 5 then Some DOUBLE_PINYIN_XHE
      else None)"

text \<open>
  The double-pinyin scheme in force on context \<open>c\<close> after a list of calls, when it was
  \<open>before\<close> (\<open>None\<close>: never set, the engine's default) ahead of them: the last one set.
\<close>

fun scheme_effect ::
  "pinyin_context_t \<Rightarrow> call \<Rightarrow> DoublePinyinScheme option \<Rightarrow> DoublePinyinScheme option" where
  "scheme_effect c (Pinyin_set_double_pinyin_scheme c' s) cur = (if c' = c then Some s else cur)"
| "scheme_effect c other cur = cur"

definition double_pinyin_scheme_after ::
  "pinyin_context_t \<Rightarrow> DoublePinyinScheme option \<Rightarrow> call list \<Rightarrow> DoublePinyinScheme option" where
  "double_pinyin_scheme_after c before cs = fold (scheme_effect c) cs before"

text \<open>
  GLib documents the id returned by \<open>g_timeout_add_seconds\<close> as greater than 0;
  \<open>timer_id_ok\<close> says that of the id an event carries.
\<close>

fun timer_id_ok :: "event \<Rightarrow> bool" where
  "timer_id_ok (Modified new_id) = (new_id \<noteq> 0)"
| "timer_id_ok other = True"

text \<open>
  The field \<open>m_timeout_id\<close> agrees with the main loop: it is 0 when no source is
  attached and otherwise the id of the one attached source.
\<close>

definition pending_consistent :: "session \<Rightarrow> bool" where
  "pending_consistent s =
     (sources s = (if m_timeout_id (self s) = 0 then [] else [m_timeout_id (self s)]))"

text \<open>The times at which \<open>saveUserDB\<close> ran.\<close>

definition save_times :: "session \<Rightarrow> usec list" where
  "save_times s = map fst (filter (\<lambda>tc. snd tc = SaveUserDB) (trace s))"

text \<open>
  A burst of \<open>modified\<close> calls, each with its time and the id GLib would return, and
  the main loop dispatching the source \<open>sid\<close> at the times \<open>fs\<close>.
\<close>

definition burst :: "(usec \<times> guint) list \<Rightarrow> (usec \<times> event) list" where
  "burst ms = map (\<lambda>m. (fst m, Modified (snd m))) ms"

definition firings :: "guint \<Rightarrow> usec list \<Rightarrow> (usec \<times> event) list" where
  "firings sid fs = map (\<lambda>f. (f, Dispatch sid)) fs"

text \<open>
  \<open>quiet_at since now\<close>: the test of \<open>timeoutCallback\<close> at time \<open>now\<close> on a clock
  restarted at \<open>since\<close>, on the 32-bit value the code compares. \<open>fits_guint since now\<close>:
  the whole seconds from \<open>since\<close> to \<open>now\<close> fit a \<open>guint\<close>, the range in which the cast is
  defined.
\<close>

definition quiet_at :: "usec \<Rightarrow> usec \<Rightarrow> bool" where
  "quiet_at since now =
     ((of_nat LIBPINYIN_SAVE_TIMEOUT :: guint) \<le> of_nat ((now - since) div 1000000))"

definition fits_guint :: "usec \<Rightarrow> usec \<Rightarrow> bool" where
  "fits_guint since now = ((now - since) div 1000000 < 2 ^ 32)"

section \<open>Verified properties\<close>

subsection \<open>Helper lemmas\<close>

lemma error_is_assertion: "(e::error) = AssertionFailed"
  by (cases e) simp

lemma init_registers: "init now p = Inr (p', cs) \<Longrightarrow> m_instance p' \<noteq> None"
  by (auto simp: init_def LibPinyinBackEnd_ctor_def split: if_splits)

lemma init_fails_iff: "init now p = Inl AssertionFailed \<longleftrightarrow> m_instance p \<noteq> None"
  by (auto simp: init_def LibPinyinBackEnd_ctor_def split: if_splits)

lemma self_after_calls [simp]: "self (after_calls now b cs s) = b"
  by (simp add: after_calls_def)

lemma init_calls_sources_update [simp]: "init_calls (s\<lparr>sources := srcs\<rparr>) = init_calls s"
  by (simp add: init_calls_def)

lemma init_calls_after_calls [simp]:
  "init_calls (after_calls now b cs s) = init_calls s + length (filter is_Pinyin_init cs)"
  by (simp add: init_calls_def after_calls_def comp_def)

lemmas method_defs =
  allocPinyinInstance_def allocChewingInstance_def freePinyinInstance_def
  freeChewingInstance_def setPinyinOptions_def setChewingOptions_def modified_def
  timeoutCallback_def saveUserDB_def Let_def

lemma no_init_in_double_loop [simp]:
  "filter is_Pinyin_init (scheme_loop (Pinyin_set_double_pinyin_scheme c) tbl sel) = []"
  by (induction tbl) auto

lemma no_init_in_chewing_loop [simp]:
  "filter is_Pinyin_init (scheme_loop (Pinyin_set_chewing_scheme c) tbl sel) = []"
  by (induction tbl) auto

lemma step_pinyin_context:
  "init_succeeds e \<Longrightarrow>
   (m_pinyin_context (self (step sr rs s (t, e))) \<noteq> None) =
   (m_pinyin_context (self s) \<noteq> None \<or> is_AllocPinyin e)"
  by (cases e) (auto simp: method_defs split: option.splits if_splits)

lemma step_chewing_context:
  "init_succeeds e \<Longrightarrow>
   (m_chewing_context (self (step sr rs s (t, e))) \<noteq> None) =
   (m_chewing_context (self s) \<noteq> None \<or> is_AllocChewing e)"
  by (cases e) (auto simp: method_defs split: option.splits if_splits)

lemma step_init_calls:
  "init_calls (step sr rs s (t, e)) =
   init_calls s +
   (if is_AllocPinyin e \<and> m_pinyin_context (self s) = None then 1 else 0) +
   (if is_AllocChewing e \<and> m_chewing_context (self s) = None then 1 else 0)"
  by (cases e) (auto simp: method_defs split: option.splits if_splits)

lemma run_Nil [simp]: "run sr rs s [] = s"
  by (simp add: run_def)

lemma run_Cons [simp]: "run sr rs s (ev # evs) = run sr rs (step sr rs s ev) evs"
  by (simp add: run_def)

lemma run_append: "run sr rs s (xs @ ys) = run sr rs (run sr rs s xs) ys"
  by (simp add: run_def)

lemma run_pinyin_context:
  "list_all (\<lambda>ev. init_succeeds (snd ev)) evs \<Longrightarrow>
   (m_pinyin_context (self (run sr rs s evs)) \<noteq> None) =
   (m_pinyin_context (self s) \<noteq> None \<or> list_ex (\<lambda>ev. is_AllocPinyin (snd ev)) evs)"
proof (induction evs arbitrary: s)
  case Nil
  then show ?case by simp
next
  case (Cons ev evs)
  obtain t e where ev: "ev = (t, e)" by (cases ev)
  from Cons.prems ev have ok: "init_succeeds e" and rest: "list_all (\<lambda>ev. init_succeeds (snd ev)) evs"
    by simp_all
  show ?case
    using Cons.IH [OF rest, of "step sr rs s (t, e)"] step_pinyin_context [OF ok, of sr rs s t]
    by (auto simp: ev)
qed

lemma run_chewing_context:
  "list_all (\<lambda>ev. init_succeeds (snd ev)) evs \<Longrightarrow>
   (m_chewing_context (self (run sr rs s evs)) \<noteq> None) =
   (m_chewing_context (self s) \<noteq> None \<or> list_ex (\<lambda>ev. is_AllocChewing (snd ev)) evs)"
proof (induction evs arbitrary: s)
  case Nil
  then show ?case by simp
next
  case (Cons ev evs)
  obtain t e where ev: "ev = (t, e)" by (cases ev)
  from Cons.prems ev have ok: "init_succeeds e" and rest: "list_all (\<lambda>ev. init_succeeds (snd ev)) evs"
    by simp_all
  show ?case
    using Cons.IH [OF rest, of "step sr rs s (t, e)"] step_chewing_context [OF ok, of sr rs s t]
    by (auto simp: ev)
qed

lemma run_init_calls:
  "list_all (\<lambda>ev. init_succeeds (snd ev)) evs \<Longrightarrow>
   init_calls (run sr rs s evs) = init_calls s + creations s evs"
proof (induction evs arbitrary: s)
  case Nil
  then show ?case by (simp add: creations_def)
next
  case (Cons ev evs)
  obtain t e where ev: "ev = (t, e)" by (cases ev)
  from Cons.prems ev have ok: "init_succeeds e" and rest: "list_all (\<lambda>ev. init_succeeds (snd ev)) evs"
    by simp_all
  let ?s1 = "step sr rs s (t, e)"
  have p: "(m_pinyin_context (self ?s1) = None) = (m_pinyin_context (self s) = None \<and> \<not> is_AllocPinyin e)"
    using step_pinyin_context [OF ok, of sr rs s t] by blast
  have c: "(m_chewing_context (self ?s1) = None) = (m_chewing_context (self s) = None \<and> \<not> is_AllocChewing e)"
    using step_chewing_context [OF ok, of sr rs s t] by blast
  have "init_calls (run sr rs s (ev # evs)) = init_calls ?s1 + creations ?s1 evs"
    using Cons.IH [OF rest, of ?s1] by (simp add: ev)
  also have "\<dots> = init_calls s + creations s (ev # evs)"
    unfolding creations_def step_init_calls p c by (simp add: ev)
  finally show ?case .
qed

lemma step_keeps_pinyin_context:
  "m_pinyin_context (self s) = Some c \<Longrightarrow> m_pinyin_context (self (step sr rs s ev)) = Some c"
  by (cases ev, cases "snd ev") (auto simp: method_defs split: option.splits if_splits)

lemma step_keeps_chewing_context:
  "m_chewing_context (self s) = Some c \<Longrightarrow> m_chewing_context (self (step sr rs s ev)) = Some c"
  by (cases ev, cases "snd ev") (auto simp: method_defs split: option.splits if_splits)

lemma run_keeps_pinyin_context:
  "m_pinyin_context (self s) = Some c \<Longrightarrow> m_pinyin_context (self (run sr rs s evs)) = Some c"
  by (induction evs arbitrary: s) (simp_all add: step_keeps_pinyin_context)

lemma run_keeps_chewing_context:
  "m_chewing_context (self s) = Some c \<Longrightarrow> m_chewing_context (self (run sr rs s evs)) = Some c"
  by (induction evs arbitrary: s) (simp_all add: step_keeps_chewing_context)

lemma sources_after_calls [simp]:
  "sources (after_calls now b cs s) = fold loop_effect cs (sources s)"
  by (simp add: after_calls_def)

lemma fold_loop_effect_double_loop [simp]:
  "fold loop_effect (scheme_loop (Pinyin_set_double_pinyin_scheme c) tbl sel) srcs = srcs"
  by (induction tbl) auto

lemma fold_loop_effect_chewing_loop [simp]:
  "fold loop_effect (scheme_loop (Pinyin_set_chewing_scheme c) tbl sel) srcs = srcs"
  by (induction tbl) auto

lemma step_pending_consistent:
  "timer_id_ok e \<Longrightarrow> pending_consistent s \<Longrightarrow> pending_consistent (step sr rs s (t, e))"
  by (cases e) (auto simp: method_defs pending_consistent_def split: option.splits if_splits)

lemma run_pending_consistent:
  "list_all (\<lambda>ev. timer_id_ok (snd ev)) evs \<Longrightarrow> pending_consistent s \<Longrightarrow>
   pending_consistent (run sr rs s evs)"
proof (induction evs arbitrary: s)
  case Nil
  then show ?case by simp
next
  case (Cons ev evs)
  obtain t e where ev: "ev = (t, e)" by (cases ev)
  with Cons.prems have "pending_consistent (step sr rs s (t, e))"
    by (simp add: step_pending_consistent)
  with Cons show ?case by (simp add: ev)
qed

lemma start_pending_consistent: "pending_consistent (start t0)"
  by (simp add: pending_consistent_def start_def LibPinyinBackEnd_ctor_def)

lemma destroy_sources:
  "pending_consistent s \<Longrightarrow> sources (destroy sr now s) = []"
  by (auto simp: destroy_def LibPinyinBackEnd_dtor_def saveUserDB_def Let_def pending_consistent_def
      split: option.splits)

lemma elapsed_quiet:
  "(of_nat LIBPINYIN_SAVE_TIMEOUT \<le> g_timer_elapsed now b) = quiet_at (m_timer b) now"
  by (simp add: quiet_at_def g_timer_elapsed_def)

lemma seconds_ge_iff:
  "(300 \<le> (now - since) div 1000000) = (since + 300 * 1000000 \<le> (now::nat))"
proof -
  have "(300 \<le> (now - since) div 1000000) = (300 * 1000000 \<le> now - since)"
    by (rule less_eq_div_iff_mult_less_eq) simp
  then show ?thesis by auto
qed

lemma unat_elapsed_in_range:
  "fits_guint (m_timer b) now \<Longrightarrow>
   unat (g_timer_elapsed now b) = (now - m_timer b) div 1000000"
  by (simp add: fits_guint_def g_timer_elapsed_def unat_of_nat)

lemma quiet_at_in_range:
  "fits_guint since now \<Longrightarrow> quiet_at since now = (since + 300 * 1000000 \<le> now)"
  using seconds_ge_iff [where since = since and now = now]
  by (simp add: quiet_at_def fits_guint_def word_le_nat_alt unat_of_nat
      LIBPINYIN_SAVE_TIMEOUT_def)

lemma quiet_at_elapsed: "quiet_at since now \<Longrightarrow> since + 300 * 1000000 \<le> now"
proof -
  assume "quiet_at since now"
  then have "300 \<le> ((now - since) div 1000000) mod 2 ^ 32"
    by (simp add: quiet_at_def word_le_nat_alt unat_of_nat LIBPINYIN_SAVE_TIMEOUT_def)
  also have "\<dots> \<le> (now - since) div 1000000" by (rule mod_less_eq_dividend)
  finally show ?thesis using seconds_ge_iff [where since = since and now = now] by simp
qed

lemma save_times_after_calls [simp]:
  "save_times (after_calls now b cs s) =
   save_times s @ map (\<lambda>c. now) (filter (\<lambda>c. c = SaveUserDB) cs)"
  by (simp add: save_times_def after_calls_def filter_map comp_def)

lemma save_times_sources_update [simp]: "save_times (s\<lparr>sources := srcs\<rparr>) = save_times s"
  by (simp add: save_times_def)

lemma modified_idle:
  "m_timeout_id b = 0 \<Longrightarrow>
   modified now new_id b =
     (b\<lparr>m_timer := now, m_timeout_id := new_id\<rparr>,
      [G_timer_start, G_timeout_add_seconds (of_nat LIBPINYIN_SAVE_TIMEOUT) new_id])"
  by (simp add: modified_def)

lemma modified_pending:
  "m_timeout_id b \<noteq> 0 \<Longrightarrow> modified now new_id b = (b\<lparr>m_timer := now\<rparr>, [G_timer_start])"
  by (simp add: modified_def)

lemma callback_early:
  assumes "g_timer_elapsed now b < of_nat LIBPINYIN_SAVE_TIMEOUT"
  shows "timeoutCallback sr now b = (True, b, [G_timer_elapsed])"
proof -
  from assms have "\<not> of_nat LIBPINYIN_SAVE_TIMEOUT \<le> g_timer_elapsed now b"
    by (simp add: not_le)
  then show ?thesis by (simp add: timeoutCallback_def Let_def)
qed

lemma callback_quiet:
  "of_nat LIBPINYIN_SAVE_TIMEOUT \<le> g_timer_elapsed now b \<Longrightarrow>
   timeoutCallback sr now b =
     (False, b\<lparr>m_timeout_id := 0\<rparr>,
      G_timer_elapsed # SaveUserDB # map Pinyin_save (existing_contexts b))"
  by (simp add: timeoutCallback_def saveUserDB_def existing_contexts_def split: option.splits)

lemma fold_loop_effect_saves [simp]:
  "fold loop_effect (map Pinyin_save cs) srcs = srcs"
  by (induction cs) auto

lemma no_save_marker_in_saves [simp]:
  "filter (\<lambda>c. c = SaveUserDB) (map Pinyin_save cs) = []"
  by (induction cs) auto

lemma burst_pending:
  "m_timeout_id (self s) \<noteq> 0 \<Longrightarrow>
   m_timeout_id (self (run sr rs s (burst ms))) = m_timeout_id (self s) \<and>
   sources (run sr rs s (burst ms)) = sources s \<and>
   save_times (run sr rs s (burst ms)) = save_times s \<and>
   m_timer (self (run sr rs s (burst ms))) = (if ms = [] then m_timer (self s) else fst (last ms))"
proof (induction ms arbitrary: s)
  case Nil
  then show ?case by (simp add: burst_def)
next
  case (Cons m ms)
  let ?s1 = "step sr rs s (fst m, Modified (snd m))"
  have s1: "m_timeout_id (self ?s1) = m_timeout_id (self s)" "sources ?s1 = sources s"
    "save_times ?s1 = save_times s" "m_timer (self ?s1) = fst m"
    using Cons.prems by (simp_all add: modified_pending)
  have "m_timeout_id (self ?s1) \<noteq> 0" using Cons.prems s1 by simp
  from Cons.IH [OF this] s1 show ?case by (simp add: burst_def)
qed

lemma firings_idle: "sid \<notin> set (sources s) \<Longrightarrow> run sr rs s (firings sid fs) = s"
  by (induction fs) (simp_all add: firings_def)

lemma firings_pending:
  "sources s = [sid] \<Longrightarrow>
   save_times (run sr rs s (firings sid fs)) =
   save_times s @
   (case find (quiet_at (m_timer (self s))) fs of
      None \<Rightarrow> [] | Some f \<Rightarrow> [f])"
proof (induction fs arbitrary: s)
  case Nil
  then show ?case by (simp add: firings_def)
next
  case (Cons f fs)
  let ?s1 = "step sr rs s (f, Dispatch sid)"
  show ?case
  proof (cases "quiet_at (m_timer (self s)) f")
    case True
    then have q: "of_nat LIBPINYIN_SAVE_TIMEOUT \<le> g_timer_elapsed f (self s)"
      by (simp add: elapsed_quiet)
    have "sources ?s1 = []" "save_times ?s1 = save_times s @ [f]"
      using Cons.prems by (simp_all add: callback_quiet [OF q])
    moreover from this have "run sr rs ?s1 (firings sid fs) = ?s1"
      by (simp add: firings_idle)
    ultimately show ?thesis using True by (simp add: firings_def)
  next
    case False
    then have q: "g_timer_elapsed f (self s) < of_nat LIBPINYIN_SAVE_TIMEOUT"
      using elapsed_quiet [of f "self s"] by simp
    have s1: "sources ?s1 = [sid]" "save_times ?s1 = save_times s" "self ?s1 = self s"
      using Cons.prems by (simp_all add: callback_early [OF q])
    from Cons.IH [OF s1(1)] s1 False show ?thesis by (simp add: firings_def)
  qed
qed

lemma burst_then_firings:
  assumes "m_timeout_id (self s) = 0" and "sources s = []" and "ms \<noteq> []"
    and "snd (hd ms) \<noteq> 0"
  shows "save_times (run sr rs s (burst ms @ firings (snd (hd ms)) fs)) =
     save_times s @
     (case find (quiet_at (fst (last ms))) fs of
        None \<Rightarrow> [] | Some f \<Rightarrow> [f])"
proof -
  obtain m ms' where ms: "ms = m # ms'" using assms(3) by (cases ms) auto
  let ?s1 = "step sr rs s (fst m, Modified (snd m))"
  let ?s2 = "run sr rs ?s1 (burst ms')"
  have s1: "m_timeout_id (self ?s1) = snd m" "sources ?s1 = [snd m]"
    "save_times ?s1 = save_times s" "m_timer (self ?s1) = fst m"
    using assms(1,2) by (simp_all add: modified_idle)
  have "m_timeout_id (self ?s1) \<noteq> 0" using assms(4) ms s1 by simp
  from burst_pending [OF this, of sr rs ms'] s1
  have s2: "sources ?s2 = [snd m]" "save_times ?s2 = save_times s"
    "m_timer (self ?s2) = fst (last ms)"
    by (simp_all add: ms)
  have "run sr rs s (burst ms @ firings (snd (hd ms)) fs) = run sr rs ?s2 (firings (snd m) fs)"
    by (simp add: ms burst_def run_append)
  then show ?thesis using firings_pending [OF s2(1), of sr rs fs] s2 by simp
qed

lemma find_quiet_in_range:
  "list_all (fits_guint t) fs \<Longrightarrow>
   find (quiet_at t) fs = find (\<lambda>f. t + 300 * 1000000 \<le> f) fs"
  by (induction fs) (simp_all add: quiet_at_in_range)

lemma find_quiet_elapsed:
  "list_all (\<lambda>f. t + 300 * 1000000 \<le> f)
     (case find (quiet_at t) fs of None \<Rightarrow> [] | Some f \<Rightarrow> [f])"
proof (cases "find (quiet_at t) fs")
  case None
  then show ?thesis by simp
next
  case (Some f)
  then have "quiet_at t f" by (auto simp: find_Some_iff)
  then show ?thesis using Some quiet_at_elapsed [of t f] by simp
qed

lemma scheme_loop_double:
  "scheme_loop setter double_pinyin_options sel =
     (case selected_double_pinyin_scheme sel of None \<Rightarrow> [] | Some s \<Rightarrow> [setter s])"
  by (simp add: double_pinyin_options_def selected_double_pinyin_scheme_def)

lemma step_pinyin_context_exact:
  "(m_pinyin_context (self (step sr rs s (t, e))) \<noteq> None) =
   (m_pinyin_context (self s) \<noteq> None \<or> is_AllocPinyin e \<and> init_succeeds e)"
  by (cases e) (auto simp: method_defs split: option.splits if_splits)

lemma step_chewing_context_exact:
  "(m_chewing_context (self (step sr rs s (t, e))) \<noteq> None) =
   (m_chewing_context (self s) \<noteq> None \<or> is_AllocChewing e \<and> init_succeeds e)"
  by (cases e) (auto simp: method_defs split: option.splits if_splits)

lemma run_pinyin_context_exact:
  "(m_pinyin_context (self (run sr rs s evs)) \<noteq> None) =
   (m_pinyin_context (self s) \<noteq> None \<or>
    list_ex (\<lambda>ev. is_AllocPinyin (snd ev) \<and> init_succeeds (snd ev)) evs)"
proof (induction evs arbitrary: s)
  case Nil
  then show ?case by simp
next
  case (Cons ev evs)
  obtain t e where ev: "ev = (t, e)" by (cases ev)
  show ?case
    using Cons.IH [of "step sr rs s (t, e)"] step_pinyin_context_exact [of sr rs s t e]
    by (auto simp: ev)
qed

lemma run_chewing_context_exact:
  "(m_chewing_context (self (run sr rs s evs)) \<noteq> None) =
   (m_chewing_context (self s) \<noteq> None \<or>
    list_ex (\<lambda>ev. is_AllocChewing (snd ev) \<and> init_succeeds (snd ev)) evs)"
proof (induction evs arbitrary: s)
  case Nil
  then show ?case by simp
next
  case (Cons ev evs)
  obtain t e where ev: "ev = (t, e)" by (cases ev)
  show ?case
    using Cons.IH [of "step sr rs s (t, e)"] step_chewing_context_exact [of sr rs s t e]
    by (auto simp: ev)
qed

lemma alloc_pinyin_reuse:
  "m_pinyin_context b \<noteq> None \<Longrightarrow>
   fst (allocPinyinInstance rs env config b) = b \<and>
   filter is_Pinyin_init (snd (allocPinyinInstance rs env config b)) = []"
  by (auto simp: allocPinyinInstance_def setPinyinOptions_def Let_def)

lemma alloc_chewing_reuse:
  "m_chewing_context b \<noteq> None \<Longrightarrow>
   fst (allocChewingInstance env config b) = b \<and>
   filter is_Pinyin_init (snd (allocChewingInstance env config b)) = []"
  by (auto simp: allocChewingInstance_def setChewingOptions_def Let_def)

lemma step_sets_id:
  "m_timeout_id (self s) = 0 \<Longrightarrow> m_timeout_id (self (step sr rs s (t, e))) \<noteq> 0 \<Longrightarrow>
   e = Modified (m_timeout_id (self (step sr rs s (t, e))))"
  by (cases e) (auto simp: method_defs split: option.splits if_splits)

lemma step_clears_id:
  "pending_consistent s \<Longrightarrow> m_timeout_id (self s) \<noteq> 0 \<Longrightarrow>
   m_timeout_id (self (step sr rs s (t, e))) = 0 \<Longrightarrow>
   e = Dispatch (m_timeout_id (self s)) \<and> save_times (step sr rs s (t, e)) = save_times s @ [t]"
  by (cases e) (auto simp: method_defs pending_consistent_def split: option.splits if_splits)

subsection \<open>Allocation and the user directory\<close>

text \<open>
  C2, at the input where it fails. The first Bopomofo allocation in \<open>home_env\<close>, where
  \<open>g_mkdir_with_parents\<close> succeeds: the directory \<open>~/.cache/ibus/libbopomofo\<close> is
  created with mode 0700, but \<open>pinyin_init\<close> is called with \<open>NULL\<close> in place of that
  directory.
\<close>

theorem chewing_init_ignores_userdir:
  "home_env =
     \<lparr>g_get_home_dir = ''/home/u'', g_mkdir_with_parents = (\<lambda>f m. 0),
      pinyin_init = (\<lambda>d u. Some 7)\<rparr> \<and>
   snd (allocChewingInstance home_env
          \<lparr>doublePinyinSchema = 0, bopomofoKeyboardMapping = 0, option = 0\<rparr>
          (fst (LibPinyinBackEnd_ctor 0))) =
     [G_mkdir_with_parents [''/home/u'', ''.cache'', ''ibus'', ''libbopomofo''] 448,
      Pinyin_init ''/usr/share/libpinyin/data'' None,
      Pinyin_set_chewing_scheme 7 CHEWING_STANDARD,
      Pinyin_set_options 7 0,
      Pinyin_alloc_instance (Some 7)]"
  by (simp add: allocChewingInstance_def home_env_def LibPinyinBackEnd_ctor_def
      setChewingOptions_def chewing_options_def system_data_dir_def mode_0700_def)

text \<open>
  The Pinyin allocation in the same environment hands the directory it created to
  \<open>pinyin_init\<close>.
\<close>

lemma pinyin_init_gets_userdir:
  "snd (allocPinyinInstance 128 home_env
          \<lparr>doublePinyinSchema = 0, bopomofoKeyboardMapping = 0, option = 0\<rparr>
          (fst (LibPinyinBackEnd_ctor 0))) =
     [G_mkdir_with_parents [''/home/u'', ''.cache'', ''ibus'', ''libpinyin''] 448,
      Pinyin_init ''/usr/share/libpinyin/data''
        (Some [''/home/u'', ''.cache'', ''ibus'', ''libpinyin'']),
      Pinyin_set_double_pinyin_scheme 7 DOUBLE_PINYIN_MS,
      Pinyin_set_options 7 128,
      Pinyin_alloc_instance (Some 7)]"
  by (simp add: allocPinyinInstance_def home_env_def LibPinyinBackEnd_ctor_def
      setPinyinOptions_def double_pinyin_options_def system_data_dir_def mode_0700_def Let_def)

subsection \<open>Lazy creation of the contexts\<close>

text \<open>
  C4, as stated, fails when the engine cannot create a context. In \<open>failing_env\<close>
  \<open>pinyin_init\<close> returns \<open>NULL\<close>: a Pinyin allocation has occurred and the Pinyin context
  is still null, and the second allocation calls \<open>pinyin_init\<close> a second time.
\<close>

theorem null_init_leaves_no_context:
  "list_ex (\<lambda>ev. is_AllocPinyin (snd ev)) [(1, AllocPinyin failing_env config_abc)] \<and>
   m_pinyin_context
     (self (run (\<lambda>c. False) 128 (start 0) [(1, AllocPinyin failing_env config_abc)])) = None \<and>
   init_calls (run (\<lambda>c. False) 128 (start 0)
     [(1, AllocPinyin failing_env config_abc), (2, AllocPinyin failing_env config_abc)]) = 2"
  by (simp add: start_def LibPinyinBackEnd_ctor_def failing_env_def config_abc_def method_defs
      init_calls_def after_calls_def)

text \<open>
  C4, amended. No context exists after construction. In every state reached from
  construction by method calls and timer dispatches, the context of a family is
  non-null if and only if an allocation for that family has occurred in which
  \<open>pinyin_init\<close> returned a non-null pointer. An allocation on an existing context keeps
  the object unchanged and makes no \<open>pinyin_init\<close> call, and nothing that follows
  replaces an existing context. When every \<open>pinyin_init\<close> of the run succeeds, this is
  the claim as written: a context exists if and only if an allocation for its family
  has occurred, and each family's context is created exactly once.
\<close>

theorem lazy_context_creation:
  "existing_contexts (self (start t0)) = [] \<and>
   (m_pinyin_context (self (run sr rs (start t0) evs)) \<noteq> None \<longleftrightarrow>
      list_ex (\<lambda>ev. is_AllocPinyin (snd ev) \<and> init_succeeds (snd ev)) evs) \<and>
   (m_chewing_context (self (run sr rs (start t0) evs)) \<noteq> None \<longleftrightarrow>
      list_ex (\<lambda>ev. is_AllocChewing (snd ev) \<and> init_succeeds (snd ev)) evs) \<and>
   (m_pinyin_context b \<noteq> None \<longrightarrow>
      fst (allocPinyinInstance rs env config b) = b \<and>
      filter is_Pinyin_init (snd (allocPinyinInstance rs env config b)) = []) \<and>
   (m_chewing_context b \<noteq> None \<longrightarrow>
      fst (allocChewingInstance env config b) = b \<and>
      filter is_Pinyin_init (snd (allocChewingInstance env config b)) = []) \<and>
   (m_pinyin_context (self (run sr rs (start t0) evs)) \<noteq> None \<longrightarrow>
      m_pinyin_context (self (run sr rs (start t0) (evs @ evs'))) =
      m_pinyin_context (self (run sr rs (start t0) evs))) \<and>
   (m_chewing_context (self (run sr rs (start t0) evs)) \<noteq> None \<longrightarrow>
      m_chewing_context (self (run sr rs (start t0) (evs @ evs'))) =
      m_chewing_context (self (run sr rs (start t0) evs))) \<and>
   (list_all (\<lambda>ev. init_succeeds (snd ev)) evs \<longrightarrow>
      (m_pinyin_context (self (run sr rs (start t0) evs)) \<noteq> None \<longleftrightarrow>
         list_ex (\<lambda>ev. is_AllocPinyin (snd ev)) evs) \<and>
      (m_chewing_context (self (run sr rs (start t0) evs)) \<noteq> None \<longleftrightarrow>
         list_ex (\<lambda>ev. is_AllocChewing (snd ev)) evs) \<and>
      init_calls (run sr rs (start t0) evs) =
         (if list_ex (\<lambda>ev. is_AllocPinyin (snd ev)) evs then 1 else 0) +
         (if list_ex (\<lambda>ev. is_AllocChewing (snd ev)) evs then 1 else 0))"
proof -
  have e: "m_pinyin_context (self (run sr rs (start t0) evs)) \<noteq> None \<longrightarrow>
       m_pinyin_context (self (run sr rs (start t0) (evs @ evs'))) =
       m_pinyin_context (self (run sr rs (start t0) evs))"
    using run_keeps_pinyin_context [of "run sr rs (start t0) evs" _ sr rs evs']
    by (auto simp: run_append)
  have f: "m_chewing_context (self (run sr rs (start t0) evs)) \<noteq> None \<longrightarrow>
       m_chewing_context (self (run sr rs (start t0) (evs @ evs'))) =
       m_chewing_context (self (run sr rs (start t0) evs))"
    using run_keeps_chewing_context [of "run sr rs (start t0) evs" _ sr rs evs']
    by (auto simp: run_append)
  have s0: "m_pinyin_context (self (start t0)) = None" "m_chewing_context (self (start t0)) = None"
    "init_calls (start t0) = 0"
    by (simp_all add: start_def LibPinyinBackEnd_ctor_def init_calls_def)
  have a: "existing_contexts (self (start t0)) = []"
    by (simp add: existing_contexts_def s0)
  have b: "(m_pinyin_context (self (run sr rs (start t0) evs)) \<noteq> None) =
      list_ex (\<lambda>ev. is_AllocPinyin (snd ev) \<and> init_succeeds (snd ev)) evs"
    using run_pinyin_context_exact [of sr rs "start t0" evs] by (simp add: s0)
  have c: "(m_chewing_context (self (run sr rs (start t0) evs)) \<noteq> None) =
      list_ex (\<lambda>ev. is_AllocChewing (snd ev) \<and> init_succeeds (snd ev)) evs"
    using run_chewing_context_exact [of sr rs "start t0" evs] by (simp add: s0)
  have d: "list_all (\<lambda>ev. init_succeeds (snd ev)) evs \<longrightarrow>
      (m_pinyin_context (self (run sr rs (start t0) evs)) \<noteq> None \<longleftrightarrow>
         list_ex (\<lambda>ev. is_AllocPinyin (snd ev)) evs) \<and>
      (m_chewing_context (self (run sr rs (start t0) evs)) \<noteq> None \<longleftrightarrow>
         list_ex (\<lambda>ev. is_AllocChewing (snd ev)) evs) \<and>
      init_calls (run sr rs (start t0) evs) =
         (if list_ex (\<lambda>ev. is_AllocPinyin (snd ev)) evs then 1 else 0) +
         (if list_ex (\<lambda>ev. is_AllocChewing (snd ev)) evs then 1 else 0)"
    using run_pinyin_context [of evs sr rs "start t0"] run_chewing_context [of evs sr rs "start t0"]
      run_init_calls [of evs sr rs "start t0"]
    by (simp add: s0 creations_def)
  show ?thesis
    using a b c d e f alloc_pinyin_reuse [of b rs env config]
      alloc_chewing_reuse [of b env config]
    by blast
qed

theorem lazy_context_creation_witness:
  "list_all (\<lambda>ev. init_succeeds (snd ev))
     [(1, AllocPinyin home_env config_abc), (2, AllocPinyin home_env config_abc)] \<and>
   m_pinyin_context
     (self (run (\<lambda>c. False) 128 (start 0)
        [(1, AllocPinyin home_env config_abc), (2, AllocPinyin home_env config_abc)])) = Some 7 \<and>
   m_chewing_context
     (self (run (\<lambda>c. False) 128 (start 0)
        [(1, AllocPinyin home_env config_abc), (2, AllocPinyin home_env config_abc)])) = None \<and>
   init_calls (run (\<lambda>c. False) 128 (start 0)
        [(1, AllocPinyin home_env config_abc), (2, AllocPinyin home_env config_abc)]) = 1"
  using lazy_context_creation [where ?t0.0 = 0 and sr = "\<lambda>c. False" and rs = 128
      and evs = "[(1, AllocPinyin home_env config_abc), (2, AllocPinyin home_env config_abc)]"
      and b = "fst (allocPinyinInstance 128 home_env config_abc (fst (LibPinyinBackEnd_ctor 0)))"
      and env = home_env and config = config_abc and evs' = "[]"]
  by (simp add: start_def LibPinyinBackEnd_ctor_def home_env_def config_abc_def method_defs
      init_calls_def after_calls_def double_pinyin_options_def system_data_dir_def)

subsection \<open>The singleton\<close>

text \<open>
  C3, as stated, fails: after static initialisation and one \<open>init\<close> two
  \<open>LibPinyinBackEnd\<close> objects are alive, the file-scope object \<open>libpinyin_backend\<close> and
  the registered one.
\<close>

theorem two_instances_after_init:
  "init 5 (static_init 0) =
     Inr (\<lparr>libpinyin_backend =
              \<lparr>m_timeout_id = 0, m_timer = 0,
               m_pinyin_context = None, m_chewing_context = None\<rparr>,
           m_instance =
              Some \<lparr>m_timeout_id = 0, m_timer = 5,
                    m_pinyin_context = None, m_chewing_context = None\<rparr>\<rparr>,
          [G_timer_new]) \<and>
   \<not> length (instances
        \<lparr>libpinyin_backend =
           \<lparr>m_timeout_id = 0, m_timer = 0,
            m_pinyin_context = None, m_chewing_context = None\<rparr>,
         m_instance =
           Some \<lparr>m_timeout_id = 0, m_timer = 5,
                 m_pinyin_context = None, m_chewing_context = None\<rparr>\<rparr>) \<le> 1"
  by (simp add: init_def static_init_def LibPinyinBackEnd_ctor_def instances_def)

text \<open>
  C3, amended. \<open>init\<close> fails its assertion exactly when an instance is registered; a
  successful \<open>init\<close> registers one; and in every sequence of \<open>init\<close> and \<open>finalize\<close>
  calls, from every process state, two \<open>init\<close> calls with no \<open>finalize\<close> between them
  end in the failed assertion.
\<close>

theorem init_twice_fails:
  "(init now p = Inl AssertionFailed \<longleftrightarrow> m_instance p \<noteq> None) \<and>
   init now (p\<lparr>m_instance := None\<rparr>) =
     Inr (p\<lparr>m_instance := Some (fst (LibPinyinBackEnd_ctor now))\<rparr>, [G_timer_new]) \<and>
   lifecycle sr p (pre @ Init t1 # Init t2 # post) = Inl AssertionFailed"
proof -
  have twice: "lifecycle sr q (pre @ Init t1 # Init t2 # post) = Inl AssertionFailed" for q
  proof (induction pre arbitrary: q)
    case Nil
    show ?case
    proof (cases "init t1 q")
      case (Inl e)
      then show ?thesis by (simp add: error_is_assertion [of e])
    next
      case (Inr r)
      obtain q' cs where r: "r = (q', cs)" by (cases r)
      with Inr have "m_instance q' \<noteq> None" using init_registers by blast
      then have "init t2 q' = Inl AssertionFailed" by (simp add: init_fails_iff)
      with Inr r show ?thesis by simp
    qed
  next
    case (Cons a pre)
    show ?case
    proof (cases a)
      case (Init t)
      then show ?thesis using Cons.IH
        by (cases "init t q") (auto split: prod.splits intro: error_is_assertion)
    next
      case Finalize
      then show ?thesis using Cons.IH by simp
    qed
  qed
  have reg: "init now (p\<lparr>m_instance := None\<rparr>) =
      Inr (p\<lparr>m_instance := Some (fst (LibPinyinBackEnd_ctor now))\<rparr>, [G_timer_new])"
    by (simp add: init_def LibPinyinBackEnd_ctor_def)
  show ?thesis using twice reg init_fails_iff by blast
qed

theorem init_twice_fails_witness:
  "m_instance (static_init 0) = None \<and>
   init 1 (static_init 0) \<noteq> Inl AssertionFailed \<and>
   lifecycle (\<lambda>c. False) (static_init 0) [Init 1, Finalize, Init 2, Init 3, Finalize]
     = Inl AssertionFailed"
  using init_twice_fails [of 1 "static_init 0" "\<lambda>c. False" "[Init 1, Finalize]" 2 3 "[Finalize]"]
  by (simp add: static_init_def init_def finalize_def LibPinyinBackEnd_ctor_def)

text \<open>
  C10. \<open>finalize\<close> with no registered instance changes nothing and makes no call;
  after any \<open>finalize\<close> no instance is registered, and the next \<open>init\<close> passes its
  assertion and registers a fresh object.
\<close>

theorem finalize_without_instance:
  "(m_instance p = None \<longrightarrow> finalize sr p = (p, [])) \<and>
   m_instance (fst (finalize sr p)) = None \<and>
   init now (fst (finalize sr p)) =
     Inr ((fst (finalize sr p))\<lparr>m_instance := Some (fst (LibPinyinBackEnd_ctor now))\<rparr>,
          [G_timer_new])"
  by (simp add: finalize_def init_def LibPinyinBackEnd_ctor_def split: option.splits)

theorem finalize_without_instance_witness:
  "m_instance (static_init 0) = None \<and>
   finalize (\<lambda>c. False) (static_init 0) = (static_init 0, []) \<and>
   init 9 (fst (finalize (\<lambda>c. False) (static_init 0))) =
     Inr ((static_init 0)\<lparr>m_instance := Some (fst (LibPinyinBackEnd_ctor 9))\<rparr>, [G_timer_new])"
  using finalize_without_instance [of "static_init 0" "\<lambda>c. False" 9]
  by (simp add: static_init_def finalize_def)

subsection \<open>Saving and teardown\<close>

text \<open>
  C8. \<open>saveUserDB\<close> calls \<open>pinyin_save\<close> once for each context that exists and for
  nothing else, and returns \<open>TRUE\<close> whatever contexts exist and whatever the engine
  answers.
\<close>

theorem saveUserDB_saves_existing_contexts:
  "fst (saveUserDB save_result b) = True \<and>
   snd (saveUserDB save_result b) = SaveUserDB # map Pinyin_save (existing_contexts b)"
  by (simp add: saveUserDB_def existing_contexts_def split: option.splits)

text \<open>
  C7. The destructor of an object with a pending timer releases the clock, then runs
  \<open>saveUserDB\<close>, then removes the timer source, and only then finishes the contexts
  that exist; it never looks at the elapsed time. With no pending timer it releases
  the clock and finishes the contexts, without a save. \<open>finalize\<close> on a registered
  instance runs exactly this destructor.
\<close>

theorem teardown_forces_pending_save:
  "(m_timeout_id b \<noteq> 0 \<longrightarrow>
      snd (LibPinyinBackEnd_dtor sr b) =
        G_timer_destroy # snd (saveUserDB sr b) @
        G_source_remove (m_timeout_id b) # map Pinyin_fini (existing_contexts b)) \<and>
   (m_timeout_id b = 0 \<longrightarrow>
      snd (LibPinyinBackEnd_dtor sr b) =
        G_timer_destroy # map Pinyin_fini (existing_contexts b)) \<and>
   existing_contexts (fst (LibPinyinBackEnd_dtor sr b)) = [] \<and>
   (m_instance p = Some b \<longrightarrow>
      finalize sr p = (p\<lparr>m_instance := None\<rparr>, snd (LibPinyinBackEnd_dtor sr b)))"
  by (simp add: LibPinyinBackEnd_dtor_def finalize_def existing_contexts_def Let_def
      split: option.splits)

theorem teardown_forces_pending_save_witness:
  "snd (LibPinyinBackEnd_dtor (\<lambda>c. False)
     \<lparr>m_timeout_id = 3, m_timer = 0, m_pinyin_context = Some 7, m_chewing_context = Some 8\<rparr>) =
     [G_timer_destroy, SaveUserDB, Pinyin_save 7, Pinyin_save 8, G_source_remove 3,
      Pinyin_fini 7, Pinyin_fini 8] \<and>
   snd (LibPinyinBackEnd_dtor (\<lambda>c. False)
     \<lparr>m_timeout_id = 0, m_timer = 0, m_pinyin_context = Some 7, m_chewing_context = None\<rparr>) =
     [G_timer_destroy, Pinyin_fini 7] \<and>
   finalize (\<lambda>c. False)
     \<lparr>libpinyin_backend = fst (LibPinyinBackEnd_ctor 0),
      m_instance = Some \<lparr>m_timeout_id = 3, m_timer = 0,
                         m_pinyin_context = Some 7, m_chewing_context = Some 8\<rparr>\<rparr> =
     (\<lparr>libpinyin_backend = fst (LibPinyinBackEnd_ctor 0), m_instance = None\<rparr>,
      [G_timer_destroy, SaveUserDB, Pinyin_save 7, Pinyin_save 8, G_source_remove 3,
       Pinyin_fini 7, Pinyin_fini 8])"
  using
    teardown_forces_pending_save
      [of "\<lparr>m_timeout_id = 3, m_timer = 0, m_pinyin_context = Some 7, m_chewing_context = Some 8\<rparr>"
          "\<lambda>c. False"
          "\<lparr>libpinyin_backend = fst (LibPinyinBackEnd_ctor 0),
            m_instance = Some \<lparr>m_timeout_id = 3, m_timer = 0,
                               m_pinyin_context = Some 7, m_chewing_context = Some 8\<rparr>\<rparr>"]
    teardown_forces_pending_save
      [of "\<lparr>m_timeout_id = 0, m_timer = 0, m_pinyin_context = Some 7, m_chewing_context = None\<rparr>"
          "\<lambda>c. False"
          "\<lparr>libpinyin_backend = fst (LibPinyinBackEnd_ctor 0), m_instance = None\<rparr>"]
  by (simp add: saveUserDB_def existing_contexts_def)

subsection \<open>The save timer\<close>

text \<open>
  C1. Every \<open>modified\<close> restarts the clock and schedules a timer, with the interval of
  300 seconds, only when none is pending. The callback with an elapsed time below 300
  returns \<open>TRUE\<close> and saves nothing; with an elapsed time of at least 300 it runs
  \<open>saveUserDB\<close> once, clears \<open>m_timeout_id\<close> and returns \<open>FALSE\<close>, and then at least 300
  seconds have really passed since the clock was restarted. The elapsed time is the
  32-bit value the code compares; it is the number of whole seconds since the restart
  wherever that number fits a \<open>guint\<close>. From an idle object, any non-empty burst of
  \<open>modified\<close> calls followed by any dispatches of the timer yields at most one save, at
  the first dispatch whose elapsed time since the last \<open>modified\<close> of the burst is at
  least 300, and never earlier than 300 seconds after that last \<open>modified\<close>; with all
  dispatches in the range of a \<open>guint\<close>, that is the first dispatch 300 seconds or more
  after the last \<open>modified\<close>.
\<close>

theorem debounce_coalescing:
  assumes "m_timeout_id (self s) = 0" and "sources s = []" and "ms \<noteq> []"
    and "snd (hd ms) \<noteq> 0"
  shows "m_timer (fst (modified now new_id b)) = now \<and>
     snd (modified now new_id b) =
       (if m_timeout_id b = 0 then [G_timer_start, G_timeout_add_seconds 300 new_id]
        else [G_timer_start]) \<and>
     m_timeout_id (fst (modified now new_id b)) =
       (if m_timeout_id b = 0 then new_id else m_timeout_id b) \<and>
     (g_timer_elapsed now b < of_nat LIBPINYIN_SAVE_TIMEOUT \<longrightarrow>
        timeoutCallback sr now b = (True, b, [G_timer_elapsed])) \<and>
     (of_nat LIBPINYIN_SAVE_TIMEOUT \<le> g_timer_elapsed now b \<longrightarrow>
        timeoutCallback sr now b =
          (False, b\<lparr>m_timeout_id := 0\<rparr>,
           G_timer_elapsed # SaveUserDB # map Pinyin_save (existing_contexts b)) \<and>
        m_timer b + 300 * 1000000 \<le> now) \<and>
     (fits_guint (m_timer b) now \<longrightarrow>
        unat (g_timer_elapsed now b) = (now - m_timer b) div 1000000 \<and>
        (of_nat LIBPINYIN_SAVE_TIMEOUT \<le> g_timer_elapsed now b) =
          (m_timer b + 300 * 1000000 \<le> now)) \<and>
     save_times (run sr rs s (burst ms @ firings (snd (hd ms)) fs)) =
       save_times s @
       (case find (quiet_at (fst (last ms))) fs of None \<Rightarrow> [] | Some f \<Rightarrow> [f]) \<and>
     list_all (\<lambda>f. fst (last ms) + 300 * 1000000 \<le> f)
       (case find (quiet_at (fst (last ms))) fs of None \<Rightarrow> [] | Some f \<Rightarrow> [f]) \<and>
     (list_all (fits_guint (fst (last ms))) fs \<longrightarrow>
        save_times (run sr rs s (burst ms @ firings (snd (hd ms)) fs)) =
          save_times s @
          (case find (\<lambda>f. fst (last ms) + 300 * 1000000 \<le> f) fs of
             None \<Rightarrow> [] | Some f \<Rightarrow> [f]))"
proof -
  have a: "m_timer (fst (modified now new_id b)) = now"
    by (simp add: modified_def Let_def)
  have b: "snd (modified now new_id b) =
       (if m_timeout_id b = 0 then [G_timer_start, G_timeout_add_seconds 300 new_id]
        else [G_timer_start])"
    by (simp add: modified_def Let_def LIBPINYIN_SAVE_TIMEOUT_def)
  have c: "m_timeout_id (fst (modified now new_id b)) =
       (if m_timeout_id b = 0 then new_id else m_timeout_id b)"
    by (simp add: modified_def Let_def)
  have d: "of_nat LIBPINYIN_SAVE_TIMEOUT \<le> g_timer_elapsed now b \<longrightarrow>
       m_timer b + 300 * 1000000 \<le> now"
    using quiet_at_elapsed [of "m_timer b" now] by (simp add: elapsed_quiet)
  have e: "fits_guint (m_timer b) now \<longrightarrow>
        unat (g_timer_elapsed now b) = (now - m_timer b) div 1000000 \<and>
        (of_nat LIBPINYIN_SAVE_TIMEOUT \<le> g_timer_elapsed now b) =
          (m_timer b + 300 * 1000000 \<le> now)"
    using unat_elapsed_in_range [of b now] quiet_at_in_range [of "m_timer b" now]
    by (simp add: elapsed_quiet)
  have f: "save_times (run sr rs s (burst ms @ firings (snd (hd ms)) fs)) =
       save_times s @
       (case find (quiet_at (fst (last ms))) fs of None \<Rightarrow> [] | Some f \<Rightarrow> [f])"
    using burst_then_firings [OF assms, of sr rs fs] .
  have g: "list_all (fits_guint (fst (last ms))) fs \<longrightarrow>
        save_times (run sr rs s (burst ms @ firings (snd (hd ms)) fs)) =
          save_times s @
          (case find (\<lambda>f. fst (last ms) + 300 * 1000000 \<le> f) fs of
             None \<Rightarrow> [] | Some f \<Rightarrow> [f])"
    using f find_quiet_in_range [of "fst (last ms)" fs] by simp
  show ?thesis
    using a b c d e f g find_quiet_elapsed [of "fst (last ms)" fs]
      callback_early [of now b sr] callback_quiet [of now b sr]
    by blast
qed

theorem debounce_coalescing_witness:
  "m_timeout_id (self (start 0)) = 0 \<and> sources (start 0) = [] \<and>
   snd (hd [(1::nat, 5::guint), (2, 6), (3, 7)]) \<noteq> 0 \<and>
   list_all (fits_guint 3) [300000001, 600000001, 900000001] \<and>
   save_times (run (\<lambda>c. False) 128 (start 0)
     (burst [(1, 5), (2, 6), (3, 7)] @ firings 5 [300000001, 600000001, 900000001])) =
     [600000001] \<and>
   timeoutCallback (\<lambda>c. False) 300000001
     \<lparr>m_timeout_id = 5, m_timer = 3, m_pinyin_context = None, m_chewing_context = None\<rparr> =
     (True,
      \<lparr>m_timeout_id = 5, m_timer = 3, m_pinyin_context = None, m_chewing_context = None\<rparr>,
      [G_timer_elapsed]) \<and>
   timeoutCallback (\<lambda>c. False) 600000001
     \<lparr>m_timeout_id = 5, m_timer = 3, m_pinyin_context = None, m_chewing_context = None\<rparr> =
     (False,
      \<lparr>m_timeout_id = 0, m_timer = 3, m_pinyin_context = None, m_chewing_context = None\<rparr>,
      [G_timer_elapsed, SaveUserDB])"
  using
    debounce_coalescing [where s = "start 0" and ms = "[(1, 5), (2, 6), (3, 7)]"
      and fs = "[300000001, 600000001, 900000001]" and sr = "\<lambda>c. False" and rs = 128
      and now = 300000001
      and b = "\<lparr>m_timeout_id = 5, m_timer = 3, m_pinyin_context = None, m_chewing_context = None\<rparr>"]
    debounce_coalescing [where s = "start 0" and ms = "[(1, 5), (2, 6), (3, 7)]"
      and fs = "[300000001, 600000001, 900000001]" and sr = "\<lambda>c. False" and rs = 128
      and now = 600000001
      and b = "\<lparr>m_timeout_id = 5, m_timer = 3, m_pinyin_context = None, m_chewing_context = None\<rparr>"]
  by (simp add: start_def LibPinyinBackEnd_ctor_def save_times_def existing_contexts_def
      g_timer_elapsed_def LIBPINYIN_SAVE_TIMEOUT_def fits_guint_def)

text \<open>
  C6, as stated, fails at destruction: the destructor of an object with a pending
  timer saves and removes the source but does not write \<open>m_timeout_id\<close>, which is still
  non-zero when no save is scheduled any more.
\<close>

theorem timeout_id_survives_destruction:
  "m_timeout_id (self (destroy (\<lambda>c. False) 2 (run (\<lambda>c. False) 128 (start 0) [(1, Modified 5)]))) \<noteq> 0 \<and>
   sources (destroy (\<lambda>c. False) 2 (run (\<lambda>c. False) 128 (start 0) [(1, Modified 5)])) = []"
  by (simp add: start_def LibPinyinBackEnd_ctor_def method_defs destroy_def
      LibPinyinBackEnd_dtor_def LIBPINYIN_SAVE_TIMEOUT_def)

text \<open>
  C6, amended. \<open>m_timeout_id\<close> is 0 at construction, and in every state reached from
  construction by method calls and timer dispatches it is non-zero if and only if a
  timer source is attached, that is, a save is scheduled and not yet completed; the
  attached source is then the one it names. It becomes non-zero only in \<open>modified\<close>,
  and it returns to 0 only in the dispatch of its source that runs the save.
  Destruction leaves no source attached.
\<close>

theorem pending_timer_invariant:
  assumes "list_all (\<lambda>ev. timer_id_ok (snd ev)) evs"
  shows "m_timeout_id (self (start t0)) = 0 \<and> sources (start t0) = [] \<and>
     (m_timeout_id (self (run sr rs (start t0) evs)) \<noteq> 0 \<longleftrightarrow>
        sources (run sr rs (start t0) evs) \<noteq> []) \<and>
     pending_consistent (run sr rs (start t0) evs) \<and>
     (m_timeout_id (self (run sr rs (start t0) evs)) = 0 \<and>
      m_timeout_id (self (step sr rs (run sr rs (start t0) evs) (t, e))) \<noteq> 0 \<longrightarrow>
        e = Modified (m_timeout_id (self (step sr rs (run sr rs (start t0) evs) (t, e))))) \<and>
     (m_timeout_id (self (run sr rs (start t0) evs)) \<noteq> 0 \<and>
      m_timeout_id (self (step sr rs (run sr rs (start t0) evs) (t, e))) = 0 \<longrightarrow>
        e = Dispatch (m_timeout_id (self (run sr rs (start t0) evs))) \<and>
        save_times (step sr rs (run sr rs (start t0) evs) (t, e)) =
          save_times (run sr rs (start t0) evs) @ [t]) \<and>
     sources (destroy sr now (run sr rs (start t0) evs)) = []"
proof -
  let ?s = "run sr rs (start t0) evs"
  have inv: "pending_consistent ?s"
    using assms start_pending_consistent by (rule run_pending_consistent)
  have a: "m_timeout_id (self (start t0)) = 0" "sources (start t0) = []"
    by (simp_all add: start_def LibPinyinBackEnd_ctor_def)
  have b: "(m_timeout_id (self ?s) \<noteq> 0) = (sources ?s \<noteq> [])"
    using inv by (simp add: pending_consistent_def)
  show ?thesis
    using a b inv step_sets_id [of ?s sr rs t e] step_clears_id [OF inv, of sr rs t e]
      destroy_sources [OF inv, of sr now]
    by blast
qed

theorem pending_timer_invariant_witness:
  "list_all (\<lambda>ev. timer_id_ok (snd ev)) [(1, Modified 5), (2, Modified 6)] \<and>
   m_timeout_id (self (run (\<lambda>c. False) 128 (start 0) [(1, Modified 5), (2, Modified 6)])) = 5 \<and>
   sources (run (\<lambda>c. False) 128 (start 0) [(1, Modified 5), (2, Modified 6)]) = [5] \<and>
   m_timeout_id (self (step (\<lambda>c. False) 128
      (run (\<lambda>c. False) 128 (start 0) [(1, Modified 5), (2, Modified 6)])
      (300000002, Dispatch 5))) = 0 \<and>
   save_times (step (\<lambda>c. False) 128
      (run (\<lambda>c. False) 128 (start 0) [(1, Modified 5), (2, Modified 6)])
      (300000002, Dispatch 5)) = [300000002] \<and>
   sources (destroy (\<lambda>c. False) 9
      (run (\<lambda>c. False) 128 (start 0) [(1, Modified 5), (2, Modified 6)])) = []"
  using pending_timer_invariant [where evs = "[(1, Modified 5), (2, Modified 6)]"
      and ?t0.0 = 0 and sr = "\<lambda>c. False" and rs = 128 and t = 300000002 and e = "Dispatch 5"
      and now = 9]
  by (simp add: start_def LibPinyinBackEnd_ctor_def method_defs g_timer_elapsed_def
      LIBPINYIN_SAVE_TIMEOUT_def save_times_def after_calls_def)

subsection \<open>Option setters\<close>

text \<open>
  C9. With a null context of its family an option setter returns \<open>FALSE\<close> and makes no
  engine call; with a non-null context it returns \<open>TRUE\<close>.
\<close>

theorem option_setters_null_guard:
  "(m_pinyin_context b = None \<longrightarrow> setPinyinOptions rs config b = (False, [])) \<and>
   (m_pinyin_context b \<noteq> None \<longrightarrow> fst (setPinyinOptions rs config b) = True) \<and>
   (m_chewing_context b = None \<longrightarrow> setChewingOptions config b = (False, [])) \<and>
   (m_chewing_context b \<noteq> None \<longrightarrow> fst (setChewingOptions config b) = True)"
  by (auto simp: setPinyinOptions_def setChewingOptions_def split: option.splits)

theorem option_setters_null_guard_witness:
  "setPinyinOptions 128 \<lparr>doublePinyinSchema = 1, bopomofoKeyboardMapping = 2, option = 3\<rparr>
     \<lparr>m_timeout_id = 0, m_timer = 0, m_pinyin_context = None, m_chewing_context = Some 4\<rparr>
     = (False, []) \<and>
   fst (setChewingOptions \<lparr>doublePinyinSchema = 1, bopomofoKeyboardMapping = 2, option = 3\<rparr>
     \<lparr>m_timeout_id = 0, m_timer = 0, m_pinyin_context = None, m_chewing_context = Some 4\<rparr>)
     = True \<and>
   setChewingOptions \<lparr>doublePinyinSchema = 1, bopomofoKeyboardMapping = 2, option = 3\<rparr>
     \<lparr>m_timeout_id = 0, m_timer = 0, m_pinyin_context = Some 4, m_chewing_context = None\<rparr>
     = (False, []) \<and>
   fst (setPinyinOptions 128 \<lparr>doublePinyinSchema = 1, bopomofoKeyboardMapping = 2, option = 3\<rparr>
     \<lparr>m_timeout_id = 0, m_timer = 0, m_pinyin_context = Some 4, m_chewing_context = None\<rparr>)
     = True"
  using
    option_setters_null_guard
      [of "\<lparr>m_timeout_id = 0, m_timer = 0, m_pinyin_context = None, m_chewing_context = Some 4\<rparr>"
          128 "\<lparr>doublePinyinSchema = 1, bopomofoKeyboardMapping = 2, option = 3\<rparr>"]
    option_setters_null_guard
      [of "\<lparr>m_timeout_id = 0, m_timer = 0, m_pinyin_context = Some 4, m_chewing_context = None\<rparr>"
          128 "\<lparr>doublePinyinSchema = 1, bopomofoKeyboardMapping = 2, option = 3\<rparr>"]
  by simp

text \<open>
  C5, as stated, fails when the engine cannot create a context: in \<open>failing_env\<close>
  the first Pinyin allocation stores the \<open>NULL\<close> that \<open>pinyin_init\<close> returns, and
  \<open>setPinyinOptions\<close> then returns at its guard, so the allocation sets no scheme and
  pushes no flags, although the selector is 2.
\<close>

theorem null_init_pushes_no_options:
  "doublePinyinSchema config_abc = 2 \<and>
   m_pinyin_context
     (fst (allocPinyinInstance 128 failing_env config_abc (fst (LibPinyinBackEnd_ctor 0)))) =
     None \<and>
   filter is_option_call
     (snd (allocPinyinInstance 128 failing_env config_abc (fst (LibPinyinBackEnd_ctor 0)))) =
     []"
  by (simp add: allocPinyinInstance_def setPinyinOptions_def failing_env_def config_abc_def
      LibPinyinBackEnd_ctor_def Let_def)

text \<open>
  C5, amended. The loop over \<open>double_pinyin_options\<close> computes the table 0 to 5
  \<mapsto> MS, ZRM, ABC, ZIGUANG, PYJJ, XHE. Every Pinyin allocation keeps an existing
  context, without a \<open>pinyin_init\<close> call, and otherwise stores what \<open>pinyin_init\<close>
  returns for the system data path and the user directory. If the context is then
  non-null, on an existing context as on a new one, the configuration is applied to
  it: the scheme of the table for a selector in 0..5 and no scheme call for any other
  selector, so that the scheme set before stays in force; then, whatever the selector,
  \<open>pinyin_set_options\<close> with the configuration's flags OR \<open>USE_RESPLIT_TABLE\<close>. If the
  context is null, no option call is made.
\<close>

theorem pinyin_options_reapplied:
  "scheme_loop setter double_pinyin_options selector =
     (case selected_double_pinyin_scheme selector of None \<Rightarrow> [] | Some s \<Rightarrow> [setter s]) \<and>
   m_pinyin_context (fst (allocPinyinInstance rs env config b)) =
     (case m_pinyin_context b of
        Some c \<Rightarrow> Some c
      | None \<Rightarrow>
          pinyin_init env system_data_dir
            (if g_mkdir_with_parents env
                  [g_get_home_dir env, ''.cache'', ''ibus'', ''libpinyin''] mode_0700 \<noteq> 0
             then None
             else Some [g_get_home_dir env, ''.cache'', ''ibus'', ''libpinyin''])) \<and>
   filter is_option_call (snd (allocPinyinInstance rs env config b)) =
     (case m_pinyin_context (fst (allocPinyinInstance rs env config b)) of
        None \<Rightarrow> []
      | Some c \<Rightarrow>
          (case selected_double_pinyin_scheme (doublePinyinSchema config) of
             None \<Rightarrow> [] | Some s \<Rightarrow> [Pinyin_set_double_pinyin_scheme c s]) @
          [Pinyin_set_options c (option config OR rs)]) \<and>
   double_pinyin_scheme_after c before (snd (allocPinyinInstance rs env config b)) =
     (if m_pinyin_context (fst (allocPinyinInstance rs env config b)) = Some c
      then (case selected_double_pinyin_scheme (doublePinyinSchema config) of
              None \<Rightarrow> before | Some s \<Rightarrow> Some s)
      else before) \<and>
   (m_pinyin_context b \<noteq> None \<longrightarrow>
      fst (allocPinyinInstance rs env config b) = b \<and>
      filter is_Pinyin_init (snd (allocPinyinInstance rs env config b)) = [])"
proof -
  have ctx: "m_pinyin_context (fst (allocPinyinInstance rs env config b)) =
     (case m_pinyin_context b of
        Some c \<Rightarrow> Some c
      | None \<Rightarrow>
          pinyin_init env system_data_dir
            (if g_mkdir_with_parents env
                  [g_get_home_dir env, ''.cache'', ''ibus'', ''libpinyin''] mode_0700 \<noteq> 0
             then None
             else Some [g_get_home_dir env, ''.cache'', ''ibus'', ''libpinyin'']))"
    by (auto simp: allocPinyinInstance_def Let_def split: option.splits)
  have calls: "filter is_option_call (snd (allocPinyinInstance rs env config b)) =
     (case m_pinyin_context (fst (allocPinyinInstance rs env config b)) of
        None \<Rightarrow> []
      | Some c \<Rightarrow>
          (case selected_double_pinyin_scheme (doublePinyinSchema config) of
             None \<Rightarrow> [] | Some s \<Rightarrow> [Pinyin_set_double_pinyin_scheme c s]) @
          [Pinyin_set_options c (option config OR rs)])"
    by (auto simp: allocPinyinInstance_def setPinyinOptions_def scheme_loop_double Let_def
        split: option.splits if_splits)
  have scheme: "double_pinyin_scheme_after c before (snd (allocPinyinInstance rs env config b)) =
     (if m_pinyin_context (fst (allocPinyinInstance rs env config b)) = Some c
      then (case selected_double_pinyin_scheme (doublePinyinSchema config) of
              None \<Rightarrow> before | Some s \<Rightarrow> Some s)
      else before)"
    by (auto simp: allocPinyinInstance_def setPinyinOptions_def scheme_loop_double Let_def
        double_pinyin_scheme_after_def split: option.splits if_splits)
  show ?thesis
    using ctx calls scheme scheme_loop_double [of setter selector]
      alloc_pinyin_reuse [of b rs env config]
    by blast
qed

theorem pinyin_options_reapplied_witness:
  "m_pinyin_context (fst (allocPinyinInstance 128 home_env config_abc
      (fst (LibPinyinBackEnd_ctor 0)))) = Some 7 \<and>
   filter is_option_call (snd (allocPinyinInstance 128 home_env config_abc
      (fst (LibPinyinBackEnd_ctor 0))))
     = [Pinyin_set_double_pinyin_scheme 7 DOUBLE_PINYIN_ABC, Pinyin_set_options 7 131] \<and>
   double_pinyin_scheme_after 7 None (snd (allocPinyinInstance 128 home_env config_abc
      (fst (LibPinyinBackEnd_ctor 0)))) = Some DOUBLE_PINYIN_ABC \<and>
   m_pinyin_context
      \<lparr>m_timeout_id = 0, m_timer = 0, m_pinyin_context = Some 7, m_chewing_context = None\<rparr>
     \<noteq> None \<and>
   allocPinyinInstance 128 home_env (config_abc\<lparr>doublePinyinSchema := 6\<rparr>)
      \<lparr>m_timeout_id = 0, m_timer = 0, m_pinyin_context = Some 7, m_chewing_context = None\<rparr>
     = (\<lparr>m_timeout_id = 0, m_timer = 0, m_pinyin_context = Some 7, m_chewing_context = None\<rparr>,
        [Pinyin_set_options 7 131, Pinyin_alloc_instance (Some 7)]) \<and>
   double_pinyin_scheme_after 7 (Some DOUBLE_PINYIN_MS)
     (snd (allocPinyinInstance 128 home_env (config_abc\<lparr>doublePinyinSchema := 6\<rparr>)
      \<lparr>m_timeout_id = 0, m_timer = 0, m_pinyin_context = Some 7, m_chewing_context = None\<rparr>))
     = Some DOUBLE_PINYIN_MS"
  using
    pinyin_options_reapplied [where rs = 128 and env = home_env and config = config_abc
      and b = "fst (LibPinyinBackEnd_ctor 0)"
      and c = 7 and before = None and selector = 2
      and setter = "Pinyin_set_double_pinyin_scheme 7"]
    pinyin_options_reapplied [where rs = 128 and env = home_env
      and config = "config_abc\<lparr>doublePinyinSchema := 6\<rparr>"
      and b = "\<lparr>m_timeout_id = 0, m_timer = 0, m_pinyin_context = Some 7, m_chewing_context = None\<rparr>"
      and c = 7 and before = "Some DOUBLE_PINYIN_MS" and selector = 6
      and setter = "Pinyin_set_double_pinyin_scheme 7"]
  by (simp add: allocPinyinInstance_def setPinyinOptions_def config_abc_def home_env_def
      LibPinyinBackEnd_ctor_def selected_double_pinyin_scheme_def double_pinyin_options_def
      double_pinyin_scheme_after_def Let_def)

end
